theory Spec2Isabelle
  imports Main "HOL-Library.AList" "HOL-Library.Sublist"
begin

section \<open>Tables\<close>

text \<open>
  The ingestion script \<^verbatim>\<open>ingest_ebp_data.py\<close> works on pandas tables. A cell holds a JSON
  value as pandas keeps it: the missing markers \<^verbatim>\<open>None\<close>, \<^verbatim>\<open>NaN\<close> and \<^verbatim>\<open>NaT\<close>, a string, a
  number, a nested object (the contracts' \<^verbatim>\<open>product\<close>), or a parsed calendar date
  (year, month, day). Strings are byte strings; everything said about case is about the
  ASCII letters.
\<close>

datatype val =
    PyNone
  | NaN
  | NaT
  | Str string
  | Num int
  | Dict "(string \<times> val) list"
  | Timestamp nat nat nat

text \<open>\<^verbatim>\<open>Series.isna\<close>: the three missing markers.\<close>

fun isna :: "val \<Rightarrow> bool" where
  "isna PyNone = True"
| "isna NaN = True"
| "isna NaT = True"
| "isna _ = False"

text \<open>
  A table is column-major, as a DataFrame is: the length of its index and one series
  per column label, in column order. \<open>wf_df\<close> is the shape of a DataFrame built from JSON
  records: the labels are distinct and every series is as long as the index. Cells are
  compared with the equality of \<open>val\<close>, also by \<^verbatim>\<open>isin\<close> and by the dictionary lookup of
  \<^verbatim>\<open>Series.map\<close>: a missing marker is equal to itself and to nothing else.
\<close>

record dataframe =
  nrows :: nat
  cols :: "(string \<times> val list) list"

definition columns :: "dataframe \<Rightarrow> string list" where
  "columns df = map fst (cols df)"

definition wf_df :: "dataframe \<Rightarrow> bool" where
  "wf_df df = (distinct (columns df) \<and> list_all (\<lambda>p. length (snd p) = nrows df) (cols df))"

text \<open>\<^verbatim>\<open>df.empty\<close>: one of the two axes has length 0.\<close>

definition df_empty :: "dataframe \<Rightarrow> bool" where
  "df_empty df = (nrows df = 0 \<or> cols df = [])"

text \<open>The rows of a table, each as the list of its (label, cell) pairs.\<close>

definition row_at :: "dataframe \<Rightarrow> nat \<Rightarrow> (string \<times> val) list" where
  "row_at df i = map (\<lambda>p. (fst p, snd p ! i)) (cols df)"

definition rows_of :: "dataframe \<Rightarrow> (string \<times> val) list list" where
  "rows_of df = map (row_at df) [0..<nrows df]"

datatype error =
    KeyError string
  | ValueError string
  | RequestException
  | OSError
  | Unmodelled_pattern

text \<open>
  \<open>Unmodelled_pattern\<close> is no Python exception: it marks a regular expression outside the
  fragment of \<^verbatim>\<open>re\<close> syntax that \<open>re_search\<close> below covers.

  \<^verbatim>\<open>df[c]\<close> raises \<^verbatim>\<open>KeyError\<close> on a label that is not a column. \<^verbatim>\<open>df[c] = series\<close> replaces
  the column in place or appends it as the last one; \<^verbatim>\<open>df[c] = scalar\<close> broadcasts.
\<close>

definition getitem :: "dataframe \<Rightarrow> string \<Rightarrow> error + val list" where
  "getitem df c = (case map_of (cols df) c of None \<Rightarrow> Inl (KeyError c) | Some vs \<Rightarrow> Inr vs)"

definition setitem :: "dataframe \<Rightarrow> string \<Rightarrow> val list \<Rightarrow> dataframe" where
  "setitem df c vs = df\<lparr>cols := AList.update c vs (cols df)\<rparr>"

definition setitem_scalar :: "dataframe \<Rightarrow> string \<Rightarrow> val \<Rightarrow> dataframe" where
  "setitem_scalar df c v = setitem df c (replicate (nrows df) v)"

text \<open>\<^verbatim>\<open>df[[c1, ..., cn]]\<close>: the listed columns in the listed order.\<close>

definition select_columns :: "dataframe \<Rightarrow> string list \<Rightarrow> error + dataframe" where
  "select_columns df cs =
     (case filter (\<lambda>c. c \<notin> set (columns df)) cs of
        c # _ \<Rightarrow> Inl (KeyError c)
      | [] \<Rightarrow> Inr (df\<lparr>cols := concat (map (\<lambda>c. filter (\<lambda>p. fst p = c) (cols df)) cs)\<rparr>))"

text \<open>
  \<^verbatim>\<open>df.rename(columns=m)\<close> relabels the columns that are keys of \<open>m\<close> and ignores the
  other keys. \<^verbatim>\<open>df.drop(columns=cs)\<close> raises \<^verbatim>\<open>KeyError\<close> when a label of \<open>cs\<close> is not a
  column.
\<close>

definition pd_rename :: "dataframe \<Rightarrow> (string \<times> string) list \<Rightarrow> dataframe" where
  "pd_rename df m =
     df\<lparr>cols := map (\<lambda>p. (case map_of m (fst p) of Some n \<Rightarrow> n | None \<Rightarrow> fst p, snd p)) (cols df)\<rparr>"

definition pd_drop :: "dataframe \<Rightarrow> string list \<Rightarrow> error + dataframe" where
  "pd_drop df cs =
     (case filter (\<lambda>c. c \<notin> set (columns df)) cs of
        c # _ \<Rightarrow> Inl (KeyError c)
      | [] \<Rightarrow> Inr (df\<lparr>cols := filter (\<lambda>p. fst p \<notin> set cs) (cols df)\<rparr>))"

text \<open>
  \<^verbatim>\<open>df[mask].reset_index(drop=True)\<close>: the rows at which the mask is true, in order,
  renumbered from 0.
\<close>

definition mask_series :: "bool list \<Rightarrow> val list \<Rightarrow> val list" where
  "mask_series keep vs = map snd (filter fst (zip keep vs))"

definition bool_index :: "dataframe \<Rightarrow> bool list \<Rightarrow> dataframe" where
  "bool_index df keep =
     \<lparr>nrows = length (filter id (take (nrows df) keep)),
      cols = map (\<lambda>p. (fst p, mask_series keep (snd p))) (cols df)\<rparr>"

section \<open>The column helpers\<close>

text \<open>
  \<^verbatim>\<open>safe_rename_columns\<close> keeps the entries of the mapping whose old label is a column and
  renames only when one is left; \<^verbatim>\<open>safe_drop_columns\<close> does the same with the labels to
  drop.
\<close>

definition safe_rename_columns :: "dataframe \<Rightarrow> (string \<times> string) list \<Rightarrow> error + dataframe" where
  "safe_rename_columns df column_mapping =
     (let existing_columns = filter (\<lambda>p. fst p \<in> set (columns df)) column_mapping
      in if existing_columns \<noteq> [] then Inr (pd_rename df existing_columns) else Inr df)"

definition safe_drop_columns :: "dataframe \<Rightarrow> string list \<Rightarrow> error + dataframe" where
  "safe_drop_columns df columns_to_drop =
     (let existing_columns = filter (\<lambda>c. c \<in> set (columns df)) columns_to_drop
      in if existing_columns \<noteq> [] then pd_drop df existing_columns else Inr df)"

section \<open>Dates\<close>

text \<open>
  \<^verbatim>\<open>pd.to_datetime(series, format="%Y-%m-%d", errors='coerce')\<close>: a string that reads as
  year, month and day of a calendar date becomes that date, and every other cell
  becomes \<^verbatim>\<open>NaT\<close>; no cell makes it raise. \<^verbatim>\<open>%Y\<close> is four digits, \<^verbatim>\<open>%m\<close> and \<^verbatim>\<open>%d\<close> are one
  or two. The representable range of a nanosecond timestamp is not modelled.
\<close>

definition digit_of :: "char \<Rightarrow> nat option" where
  "digit_of c = map_of (zip ''0123456789'' [0..<10]) c"

fun number_of :: "nat \<Rightarrow> string \<Rightarrow> nat option" where
  "number_of acc [] = Some acc"
| "number_of acc (c # cs) =
     (case digit_of c of None \<Rightarrow> None | Some d \<Rightarrow> number_of (10 * acc + d) cs)"

fun split_on :: "char \<Rightarrow> string \<Rightarrow> string list" where
  "split_on sep [] = [[]]"
| "split_on sep (c # cs) =
     (if c = sep then [] # split_on sep cs
      else (case split_on sep cs of [] \<Rightarrow> [[c]] | w # ws \<Rightarrow> (c # w) # ws))"

definition is_leap :: "nat \<Rightarrow> bool" where
  "is_leap y = (y mod 4 = 0 \<and> (y mod 100 \<noteq> 0 \<or> y mod 400 = 0))"

definition days_in_month :: "nat \<Rightarrow> nat \<Rightarrow> nat" where
  "days_in_month y m =
     (if m = 2 then (if is_leap y then 29 else 28)
      else if m = 4 \<or> m = 6 \<or> m = 9 \<or> m = 11 then 30 else 31)"

definition strptime_ymd :: "string \<Rightarrow> (nat \<times> nat \<times> nat) option" where
  "strptime_ymd s =
     (case split_on CHR ''-'' s of
        [ys, ms, ds] \<Rightarrow>
          (if length ys = 4 \<and> length ms \<in> {1, 2} \<and> length ds \<in> {1, 2} then
             (case (number_of 0 ys, number_of 0 ms, number_of 0 ds) of
                (Some y, Some m, Some d) \<Rightarrow>
                  (if 1 \<le> y \<and> 1 \<le> m \<and> m \<le> 12 \<and> 1 \<le> d \<and> d \<le> days_in_month y m
                   then Some (y, m, d) else None)
              | _ \<Rightarrow> None)
           else None)
      | _ \<Rightarrow> None)"

fun to_datetime_val :: "val \<Rightarrow> val" where
  "to_datetime_val (Str s) =
     (case strptime_ymd s of Some (y, m, d) \<Rightarrow> Timestamp y m d | None \<Rightarrow> NaT)"
| "to_datetime_val (Timestamp y m d) = Timestamp y m d"
| "to_datetime_val _ = NaT"

definition to_datetime :: "val list \<Rightarrow> val list" where
  "to_datetime vs = map to_datetime_val vs"

definition fillna :: "val list \<Rightarrow> val \<Rightarrow> val list" where
  "fillna vs v = map (\<lambda>x. if isna x then v else x) vs"

text \<open>The loop over the date columns: a column that is not there is skipped.\<close>

fun convert_date_cols :: "string list \<Rightarrow> dataframe \<Rightarrow> dataframe" where
  "convert_date_cols [] df = df"
| "convert_date_cols (date_col # rest) df =
     convert_date_cols rest
       (case map_of (cols df) date_col of
          None \<Rightarrow> df
        | Some vs \<Rightarrow> setitem df date_col (to_datetime vs))"

section \<open>The transformers\<close>

definition transform_buildings :: "dataframe \<Rightarrow> error + dataframe" where
  "transform_buildings df =
     (if df_empty df then Inr df
      else safe_rename_columns df
             [(''id'', ''buildingId''), (''name'', ''buildingName''),
              (''activeState'', ''buildingActiveState'')])"

definition transform_utility_units :: "dataframe \<Rightarrow> error + dataframe" where
  "transform_utility_units df =
     (if df_empty df then Inr df
      else (case safe_drop_columns df [''participations'', ''participationObjects''] of
              Inl e \<Rightarrow> Inl e
            | Inr df1 \<Rightarrow>
                safe_rename_columns df1
                  [(''id'', ''utilityUnitId''), (''name'', ''utilityUnitName''),
                   (''usageType'', ''utilityUnitUsageType''),
                   (''activeState'', ''utilityUnitActiveState'')]))"

definition sentinel :: val where
  "sentinel = Str ''2099-12-31''"

definition transform_meters :: "dataframe \<Rightarrow> error + dataframe" where
  "transform_meters df =
     (if df_empty df then Inr df
      else (case safe_rename_columns df [(''id'', ''meterId''), (''activeState'', ''meterActiveState'')] of
              Inl e \<Rightarrow> Inl e
            | Inr df1 \<Rightarrow>
                (case getitem df1 ''billableTo'' of
                   Inl e \<Rightarrow> Inl e
                 | Inr vs \<Rightarrow>
                     Inr (convert_date_cols [''billableFrom'', ''billableTo'']
                            (setitem df1 ''billableTo'' (fillna vs sentinel))))))"

text \<open>\<^verbatim>\<open>x.get('name') if isinstance(x, dict) else None\<close>\<close>

fun product_name :: "val \<Rightarrow> val" where
  "product_name (Dict d) = (case map_of d ''name'' of Some v \<Rightarrow> v | None \<Rightarrow> PyNone)"
| "product_name _ = PyNone"

definition required_columns :: "string list" where
  "required_columns =
     [''contractId'', ''contractName'', ''contractActiveState'', ''startDate'', ''endDate'',
      ''productId'', ''productName'', ''areaId'', ''areaName'', ''loadDate'']"

definition transform_contracts :: "dataframe \<Rightarrow> error + dataframe" where
  "transform_contracts df =
     (if df_empty df then Inr df
      else
        let df0 = (case map_of (cols df) ''product'' of
                     Some ps \<Rightarrow> setitem df ''productName'' (map product_name ps)
                   | None \<Rightarrow> setitem_scalar df ''productName'' PyNone)
        in (case safe_rename_columns df0
                   [(''id'', ''contractId''), (''name'', ''contractName''),
                    (''activeState'', ''contractActiveState'')] of
              Inl e \<Rightarrow> Inl e
            | Inr df1 \<Rightarrow>
                (case select_columns df1 (filter (\<lambda>c. c \<in> set (columns df1)) required_columns) of
                   Inl e \<Rightarrow> Inl e
                 | Inr df2 \<Rightarrow>
                     (case getitem df2 ''endDate'' of
                        Inl e \<Rightarrow> Inl e
                      | Inr vs \<Rightarrow>
                          Inr (convert_date_cols [''startDate'', ''endDate'']
                                 (setitem df2 ''endDate'' (fillna vs sentinel)))))))"

definition transform_areas :: "dataframe \<Rightarrow> error + dataframe" where
  "transform_areas df =
     (if df_empty df then Inr df
      else safe_rename_columns df [(''id'', ''areaId''), (''name'', ''areaName'')])"

definition transform_profiles :: "dataframe \<Rightarrow> error + dataframe" where
  "transform_profiles df =
     (if df_empty df then Inr df
      else safe_rename_columns df [(''id'', ''profileId'')])"

section \<open>The denylist filter\<close>
















section \<open>The cross-linker and the filter stage of \<^verbatim>\<open>main\<close>\<close>

text \<open>
  \<^verbatim>\<open>dfb.set_index('buildingId')['areaId'].to_dict()\<close>: a dictionary from the building
  ids to the area ids, a later row overriding an earlier one with the same id;
  \<^verbatim>\<open>Series.map(dict)\<close> looks every cell up and gives \<^verbatim>\<open>NaN\<close> where the key is missing.
\<close>

definition to_dict :: "val list \<Rightarrow> val list \<Rightarrow> (val \<rightharpoonup> val)" where
  "to_dict ks vs = map_of (rev (zip ks vs))"

definition series_map :: "val list \<Rightarrow> (val \<rightharpoonup> val) \<Rightarrow> val list" where
  "series_map vs d = map (\<lambda>v. case d v of Some a \<Rightarrow> a | None \<Rightarrow> NaN) vs"

definition link_utility_units :: "dataframe \<Rightarrow> dataframe \<Rightarrow> error + dataframe" where
  "link_utility_units dfu dfb =
     (if \<not> df_empty dfu \<and> \<not> df_empty dfb
         \<and> ''buildingId'' \<in> set (columns dfu) \<and> ''areaId'' \<in> set (columns dfb)
      then (case getitem dfb ''buildingId'' of
              Inl e \<Rightarrow> Inl e
            | Inr bids \<Rightarrow>
                (case getitem dfb ''areaId'' of
                   Inl e \<Rightarrow> Inl e
                 | Inr aids \<Rightarrow>
                     (case getitem dfu ''buildingId'' of
                        Inl e \<Rightarrow> Inl e
                      | Inr ubids \<Rightarrow>
                          Inr (setitem dfu ''areaId'' (series_map ubids (to_dict bids aids))))))
      else Inr dfu)"



section \<open>The exporter\<close>

text \<open>
  The file system holds the tables written, by path (the CSV text of a table is not
  modelled), and the directories made. What the logger receives is kept as a list of
  levelled events. Whether the disk refuses a write or a \<^verbatim>\<open>mkdir\<close> is the environment's
  choice, as are the variables \<^verbatim>\<open>EXPORT_BASE_PATH\<close> and \<^verbatim>\<open>EXPORT_SUBDIRECTORIES\<close> and the date.
\<close>

datatype level = INFO | WARNING | ERROR

datatype event =
    No_data_to_export string
  | Exported string nat string
  | Export_failed string string
  | Subdirectory_not_configured string
  | Export_completed nat nat
  | Failed_exports "string list"
  | Error_during_export

record world =
  files :: "(string \<times> dataframe) list"
  dirs :: "string list"
  logged :: "(level \<times> event) list"

record export_env =
  export_base_path :: "string option"
  export_subdirectories :: "string option"
  today :: string
  write_fails :: "string \<Rightarrow> bool"
  mkdir_fails :: "string \<Rightarrow> bool"

definition log_event :: "level \<Rightarrow> event \<Rightarrow> world \<Rightarrow> world" where
  "log_event l e w = w\<lparr>logged := logged w @ [(l, e)]\<rparr>"

fun create_export_directories :: "export_env \<Rightarrow> string \<Rightarrow> string list \<Rightarrow> world \<Rightarrow> (error + unit) \<times> world" where
  "create_export_directories env base [] w = (Inr (), w)"
| "create_export_directories env base (subdir # rest) w =
     (let dir_path = base @ ''/'' @ subdir
      in if mkdir_fails env dir_path then (Inl OSError, w)
         else create_export_directories env base rest
                (w\<lparr>dirs := List.insert dir_path (dirs w)\<rparr>))"

definition export_dataframe_to_csv ::
  "export_env \<Rightarrow> dataframe \<Rightarrow> string \<Rightarrow> string \<Rightarrow> world \<Rightarrow> bool \<times> world" where
  "export_dataframe_to_csv env df file_path table_name w =
     (if df_empty df then (False, log_event WARNING (No_data_to_export table_name) w)
      else if write_fails env file_path
      then (False, log_event ERROR (Export_failed table_name file_path) w)
      else (True, log_event INFO (Exported table_name (nrows df) file_path)
                    (w\<lparr>files := AList.update file_path df (files w)\<rparr>)))"

definition csv_path :: "string \<Rightarrow> string \<Rightarrow> string \<Rightarrow> string" where
  "csv_path base day table_name = base @ ''/'' @ table_name @ ''/'' @ day @ ''_'' @ table_name @ ''.csv''"

text \<open>The loop over \<^verbatim>\<open>dataframes.items()\<close>, filling the dictionary \<^verbatim>\<open>export_results\<close>.\<close>

fun export_loop ::
  "export_env \<Rightarrow> string \<Rightarrow> string list \<Rightarrow> (string \<times> dataframe) list
     \<Rightarrow> (string \<times> bool) list \<Rightarrow> world \<Rightarrow> (string \<times> bool) list \<times> world" where
  "export_loop env base subdirectories [] export_results w = (export_results, w)"
| "export_loop env base subdirectories ((table_name, df) # rest) export_results w =
     (if table_name \<in> set subdirectories
      then (case export_dataframe_to_csv env df (csv_path base (today env) table_name) table_name w of
              (success, w') \<Rightarrow>
                export_loop env base subdirectories rest
                  (AList.update table_name success export_results) w')
      else export_loop env base subdirectories rest export_results
             (log_event WARNING (Subdirectory_not_configured table_name) w))"

record export_summary =
  export_results :: "(string \<times> bool) list"
  successful_exports :: nat
  total_exports :: nat
  failed_exports :: "string list"

definition default_subdirectories :: string where
  "default_subdirectories = ''areas,contracts,buildings,utility_units,meters,managers,profiles''"

definition configured_subdirectories :: "export_env \<Rightarrow> string list" where
  "configured_subdirectories env =
     split_on CHR '','' (case export_subdirectories env of
                          None \<Rightarrow> default_subdirectories
                        | Some s \<Rightarrow> s)"

definition export_all_data ::
  "export_env \<Rightarrow> (string \<times> dataframe) list \<Rightarrow> world \<Rightarrow> (error + export_summary) \<times> world" where
  "export_all_data env dataframes w =
     (let subdirectories = configured_subdirectories env
      in case export_base_path env of
           None \<Rightarrow> (Inl (ValueError ''EXPORT_BASE_PATH not set in environment variables''),
                     log_event ERROR Error_during_export w)
         | Some base \<Rightarrow>
             if base = [] then
               (Inl (ValueError ''EXPORT_BASE_PATH not set in environment variables''),
                log_event ERROR Error_during_export w)
             else
               (case create_export_directories env base subdirectories w of
                  (Inl e, w1) \<Rightarrow> (Inl e, log_event ERROR Error_during_export w1)
                | (Inr u, w1) \<Rightarrow>
                    (case export_loop env base subdirectories dataframes [] w1 of
                       (results, w2) \<Rightarrow>
                         let successful = length (filter snd results);
                             total = length results;
                             w3 = log_event INFO (Export_completed successful total) w2;
                             failed = map fst (filter (\<lambda>p. \<not> snd p) results);
                             w4 = (if failed \<noteq> [] then log_event WARNING (Failed_exports failed) w3
                                   else w3)
                         in (Inr \<lparr>export_results = results, successful_exports = successful,
                                  total_exports = total, failed_exports = failed\<rparr>, w4))))"

section \<open>Authentication\<close>

text \<open>
  What one \<^verbatim>\<open>requests.post\<close> of \<^verbatim>\<open>login\<close> leads to: an exception (of the request, of
  \<^verbatim>\<open>raise_for_status\<close> or of reading the body), or a JSON object, of which only the value
  of \<^verbatim>\<open>token\<close> matters (\<open>None\<close> when the object has no such field or it is null). The
  network is the sequence of the replies it will give; the session counts the requests
  made and the seconds slept.
\<close>

datatype post_reply = Raises error | Json_object "string option"

record session =
  replies :: "nat \<Rightarrow> post_reply"
  n_posts :: nat
  slept :: "nat list"
  auth_header :: "(string \<times> string) list option"

text \<open>
  \<^verbatim>\<open>retry_on_failure(max_retries, delay)\<close>: the wrapper calls the function up to
  \<^verbatim>\<open>max_retries\<close> times. A result is returned at once, whatever it is; an exception is
  raised again when the attempt was the last one, and is otherwise followed by a sleep.
  When the loop ends without an attempt the wrapper returns \<^verbatim>\<open>None\<close>.
\<close>

fun retry_loop ::
  "nat \<Rightarrow> nat \<Rightarrow> ('s \<Rightarrow> 's) \<Rightarrow> ('s \<Rightarrow> (error + 'a) \<times> 's) \<Rightarrow> 's \<Rightarrow> (error + 'a option) \<times> 's" where
  "retry_loop max_retries 0 sleep func s = (Inr None, s)"
| "retry_loop max_retries (Suc remaining) sleep func s =
     (let attempt = max_retries - Suc remaining
      in case func s of
           (Inr r, s') \<Rightarrow> (Inr (Some r), s')
         | (Inl e, s') \<Rightarrow>
             if attempt = max_retries - 1 then (Inl e, s')
             else retry_loop max_retries remaining sleep func (sleep s'))"

definition retry_on_failure ::
  "nat \<Rightarrow> ('s \<Rightarrow> 's) \<Rightarrow> ('s \<Rightarrow> (error + 'a) \<times> 's) \<Rightarrow> 's \<Rightarrow> (error + 'a option) \<times> 's" where
  "retry_on_failure max_retries sleep func s = retry_loop max_retries max_retries sleep func s"

definition time_sleep :: "nat \<Rightarrow> session \<Rightarrow> session" where
  "time_sleep delay s = s\<lparr>slept := slept s @ [delay]\<rparr>"

definition bearer :: "string \<Rightarrow> (string \<times> string) list" where
  "bearer token = [(''Authorization'', ''Bearer '' @ token), (''Content-Type'', ''application/json'')]"

text \<open>The body of \<^verbatim>\<open>login\<close>; \<^verbatim>\<open>if token:\<close> holds for a string that is not empty.\<close>

definition login_body :: "session \<Rightarrow> (error + bool) \<times> session" where
  "login_body s =
     (let s' = s\<lparr>n_posts := Suc (n_posts s)\<rparr>
      in case replies s (n_posts s) of
           Raises e \<Rightarrow> (Inl e, s')
         | Json_object None \<Rightarrow> (Inr False, s')
         | Json_object (Some token) \<Rightarrow>
             if token \<noteq> [] then (Inr True, s'\<lparr>auth_header := Some (bearer token)\<rparr>)
             else (Inr False, s'))"

definition login :: "session \<Rightarrow> (error + bool option) \<times> session" where
  "login s = retry_on_failure 3 (time_sleep 2) login_body s"

section \<open>The manager fetcher\<close>

text \<open>
  What the request for the managers of one contract leads to: an exception (of the
  request, of reading the body, or of flattening the nested \<^verbatim>\<open>contact\<close>, \<^verbatim>\<open>address\<close> and
  \<^verbatim>\<open>personal\<close> objects), a status other than 200, an empty payload, or the flattened table
  of the managers. The API is a function \<open>reply\<close>: \<open>reply idx contract_id\<close> is what the request
  made for row \<open>idx\<close> of the contracts, with that contract id in its URL, leads to.
\<close>

datatype manager_reply = Fails | Not_ok nat | Empty_payload | Managers dataframe

definition excluded_email :: val where
  "excluded_email = Str ''zev@ckw.ch''"

text \<open>\<^verbatim>\<open>df[~df['email'].isin(['zev@ckw.ch'])].reset_index(drop=True)\<close>\<close>

definition exclude_email :: "dataframe \<Rightarrow> error + dataframe" where
  "exclude_email df =
     (case getitem df ''email'' of
        Inl e \<Rightarrow> Inl e
      | Inr es \<Rightarrow> Inr (bool_index df (map (\<lambda>v. \<not> v \<in> set [excluded_email]) es)))"

text \<open>\<^verbatim>\<open>df.drop(columns=cs, errors='ignore')\<close>\<close>

definition drop_ignore :: "dataframe \<Rightarrow> string list \<Rightarrow> dataframe" where
  "drop_ignore df cs = df\<lparr>cols := filter (\<lambda>p. fst p \<notin> set cs) (cols df)\<rparr>"

text \<open>\<^verbatim>\<open>row[c]\<close> of a row of \<^verbatim>\<open>iterrows\<close>\<close>

definition row_get :: "(string \<times> val) list \<Rightarrow> string \<Rightarrow> error + val" where
  "row_get row c = (case map_of row c of None \<Rightarrow> Inl (KeyError c) | Some v \<Rightarrow> Inr v)"

text \<open>The five columns of the contract, assigned in this order.\<close>

fun stamp_contract :: "(string \<times> val) list \<Rightarrow> string list \<Rightarrow> dataframe \<Rightarrow> error + dataframe" where
  "stamp_contract row [] df = Inr df"
| "stamp_contract row (c # cs) df =
     (case row_get row c of
        Inl e \<Rightarrow> Inl e
      | Inr v \<Rightarrow> stamp_contract row cs (setitem_scalar df c v))"

definition contract_columns :: "string list" where
  "contract_columns =
     [''contractId'', ''contractName'', ''contractActiveState'', ''productName'', ''areaName'']"

definition contract_managers :: "(string \<times> val) list \<Rightarrow> dataframe \<Rightarrow> error + dataframe" where
  "contract_managers row df =
     (case exclude_email df of
        Inl e \<Rightarrow> Inl e
      | Inr df1 \<Rightarrow>
          stamp_contract row contract_columns
            (drop_ignore (pd_rename df1 [(''id'', ''profileId'')])
               [''profileId'', ''isBlocked'', ''party'', ''externalUserId'',
                ''externalUserParties'', ''activeState'']))"

text \<open>
  The loop over the contracts. An exception in the body skips the contract; the handler
  formats \<^verbatim>\<open>row['contractId']\<close> into its warning, so without that column the handler itself
  raises and the loop is left.
\<close>

fun managers_loop ::
  "(nat \<Rightarrow> val \<Rightarrow> manager_reply) \<Rightarrow> nat \<Rightarrow> (string \<times> val) list list \<Rightarrow> dataframe list
     \<Rightarrow> error + dataframe list" where
  "managers_loop reply idx [] managers = Inr managers"
| "managers_loop reply idx (row # rows) managers =
     (case row_get row ''contractId'' of
        Inl e \<Rightarrow> Inl e
      | Inr contract_id \<Rightarrow>
          (case reply idx contract_id of
             Managers df \<Rightarrow>
               (case contract_managers row df of
                  Inl e \<Rightarrow> managers_loop reply (Suc idx) rows managers
                | Inr d \<Rightarrow> managers_loop reply (Suc idx) rows (managers @ [d]))
           | _ \<Rightarrow> managers_loop reply (Suc idx) rows managers))"

text \<open>
  \<^verbatim>\<open>pd.concat(frames, ignore_index=True)\<close>: the labels of all frames in the order of their
  first appearance, the rows of the frames one after the other, \<^verbatim>\<open>NaN\<close> where a frame has
  no such column.
\<close>

definition pd_concat :: "dataframe list \<Rightarrow> dataframe" where
  "pd_concat dfs =
     \<lparr>nrows = sum_list (map nrows dfs),
      cols = map (\<lambda>c. (c, concat (map (\<lambda>df. case map_of (cols df) c of
                                               Some vs \<Rightarrow> vs
                                             | None \<Rightarrow> replicate (nrows df) NaN) dfs)))
                 (rev (remdups (rev (concat (map columns dfs)))))\<rparr>"

definition expected_columns :: "string list" where
  "expected_columns =
     [''contractId'', ''contractName'', ''contractActiveState'', ''productName'', ''areaName'',
      ''salutation'', ''firstName'', ''lastName'', ''userType'', ''username'', ''mobile'',
      ''email'', ''telephone'', ''street'', ''houseNumber'', ''postalCode'', ''city'']"

definition empty_frame :: dataframe where
  "empty_frame = \<lparr>nrows = 0, cols = []\<rparr>"

definition get_managers :: "(nat \<Rightarrow> val \<Rightarrow> manager_reply) \<Rightarrow> dataframe \<Rightarrow> error + dataframe" where
  "get_managers reply contracts_df =
     (if df_empty contracts_df then Inr empty_frame
      else (case managers_loop reply 0 (rows_of contracts_df) [] of
              Inl e \<Rightarrow> Inl e
            | Inr managers \<Rightarrow>
                if managers = [] then Inr empty_frame
                else let output = pd_concat managers
                     in select_columns output
                          (filter (\<lambda>c. c \<in> set (columns output)) expected_columns)))"

section \<open>Words and columns the statements speak of\<close>





text \<open>\<open>email_clean d\<close>: the table has an \<^verbatim>\<open>email\<close> column and the excluded address is not in it.\<close>

definition email_clean :: "dataframe \<Rightarrow> bool" where
  "email_clean d = (\<exists>es. map_of (cols d) ''email'' = Some es \<and> excluded_email \<notin> set es)"

section \<open>Looking columns up\<close>

lemma map_of_relabel:
  assumes "\<And>c. (f c = k) = (c = k)"
  shows "map_of (map (\<lambda>p. (f (fst p), snd p)) xs) k = map_of xs k"
proof (induction xs)
  case Nil
  then show ?case by simp
next
  case (Cons p xs)
  then show ?case using assms [of "fst p"] by (cases p) auto
qed

lemma map_of_filter_keys:
  "k \<in> S \<Longrightarrow> map_of (filter (\<lambda>p. fst p \<in> S) m) k = map_of m k"
  by (induction m) auto

lemma pd_rename_lookup:
  assumes "k \<notin> fst ` set m" "k \<notin> snd ` set m"
  shows "map_of (cols (pd_rename df m)) k = map_of (cols df) k"
proof -
  have "\<And>c. (case map_of m c of Some n \<Rightarrow> n | None \<Rightarrow> c) = k \<longleftrightarrow> c = k"
  proof -
    fix c
    show "(case map_of m c of Some n \<Rightarrow> n | None \<Rightarrow> c) = k \<longleftrightarrow> c = k"
    proof (cases "map_of m c")
      case None
      then show ?thesis by simp
    next
      case (Some n)
      then have "(c, n) \<in> set m" by (rule map_of_SomeD)
      then have "n \<in> snd ` set m" "c \<in> fst ` set m" by force+
      with assms Some show ?thesis by auto
    qed
  qed
  then have "map_of (map (\<lambda>p. ((\<lambda>c. case map_of m c of Some n \<Rightarrow> n | None \<Rightarrow> c) (fst p), snd p))
                  (cols df)) k = map_of (cols df) k"
    by (rule map_of_relabel)
  then show ?thesis
    unfolding pd_rename_def by simp
qed

lemma safe_rename_lookup:
  assumes "k \<notin> fst ` set m" "k \<notin> snd ` set m"
  shows "\<exists>df'. safe_rename_columns df m = Inr df' \<and> map_of (cols df') k = map_of (cols df) k
           \<and> nrows df' = nrows df"
proof -
  let ?ex = "filter (\<lambda>p. fst p \<in> set (columns df)) m"
  have "k \<notin> fst ` set ?ex" "k \<notin> snd ` set ?ex" using assms by auto
  then have "map_of (cols (pd_rename df ?ex)) k = map_of (cols df) k"
    by (rule pd_rename_lookup)
  moreover have "nrows (pd_rename df ?ex) = nrows df" by (simp add: pd_rename_def)
  ultimately show ?thesis
    by (simp add: safe_rename_columns_def Let_def)
qed

lemma columns_mem: "c \<in> set (columns df) \<longleftrightarrow> map_of (cols df) c \<noteq> None"
  by (simp add: columns_def map_of_eq_None_iff)

lemma map_of_select:
  "map_of (concat (map (\<lambda>c. filter (\<lambda>p. fst p = c) xs) cs)) k
     = (if k \<in> set cs then map_of xs k else None)"
proof (induction cs)
  case Nil
  then show ?case by simp
next
  case (Cons c cs)
  have a: "map_of (filter (\<lambda>p. fst p = c) xs) k = (if k = c then map_of xs k else None)"
    by (induction xs) auto
  have b: "map_of xs k = None \<Longrightarrow> map_of (concat (map (\<lambda>c. filter (\<lambda>p. fst p = c) xs) cs)) k = None"
    using Cons.IH by simp
  show ?case
    using Cons.IH a b by (auto simp: map_of_append map_add_def split: option.splits)
qed

lemma select_available_lookup:
  "\<exists>df'. select_columns df (filter (\<lambda>c. c \<in> set (columns df)) cs) = Inr df'
      \<and> nrows df' = nrows df
      \<and> (\<forall>k. map_of (cols df') k = (if k \<in> set cs then map_of (cols df) k else None))"
proof -
  have "filter (\<lambda>c. c \<notin> set (columns df)) (filter (\<lambda>c. c \<in> set (columns df)) cs) = []"
    by (induction cs) auto
  then show ?thesis
    by (auto simp: select_columns_def map_of_select columns_mem)
qed



section \<open>Dates in the transformers\<close>





lemma getitem_Inr: "getitem df c = Inr vs \<longleftrightarrow> map_of (cols df) c = Some vs"
  by (simp add: getitem_def split: option.splits)

lemma getitem_Inl: "getitem df c = Inl e \<longleftrightarrow> map_of (cols df) c = None \<and> e = KeyError c"
  by (auto simp: getitem_def split: option.splits)





section \<open>The transformers on empty tables\<close>

text \<open>
  C10. Each of the six transformers, given an empty table (no rows or no columns),
  returns that table, which is empty, and does not raise.
\<close>

theorem transform_empty:
  assumes "df_empty df"
  shows "transform_contracts df = Inr df \<and> transform_areas df = Inr df
       \<and> transform_buildings df = Inr df \<and> transform_utility_units df = Inr df
       \<and> transform_meters df = Inr df \<and> transform_profiles df = Inr df"
  using assms
  by (simp add: transform_contracts_def transform_areas_def transform_buildings_def
      transform_utility_units_def transform_meters_def transform_profiles_def)

theorem transform_empty_witness:
  "df_empty \<lparr>nrows = 0, cols = [(''loadDate'', [])]\<rparr>
   \<and> transform_contracts \<lparr>nrows = 0, cols = [(''loadDate'', [])]\<rparr>
       = Inr \<lparr>nrows = 0, cols = [(''loadDate'', [])]\<rparr>
   \<and> transform_meters \<lparr>nrows = 0, cols = [(''loadDate'', [])]\<rparr>
       = Inr \<lparr>nrows = 0, cols = [(''loadDate'', [])]\<rparr>"
proof -
  have e: "df_empty \<lparr>nrows = 0, cols = [(''loadDate'', [])]\<rparr>"
    by (simp add: df_empty_def)
  from transform_empty [OF e] e show ?thesis by simp
qed

section \<open>The column helpers and the date columns\<close>

lemma safe_rename_effect:
  "\<exists>df'. safe_rename_columns df m = Inr df' \<and> nrows df' = nrows df
      \<and> map snd (cols df') = map snd (cols df)
      \<and> columns df' = map (\<lambda>c. case map_of m c of Some n \<Rightarrow> n | None \<Rightarrow> c) (columns df)"
proof (cases "filter (\<lambda>p. fst p \<in> set (columns df)) m = []")
  case True
  have "map_of m c = None" if "c \<in> set (columns df)" for c
  proof (cases "map_of m c")
    case None
    then show ?thesis .
  next
    case (Some n)
    then have "(c, n) \<in> set m" by (rule map_of_SomeD)
    with that have "(c, n) \<in> set (filter (\<lambda>p. fst p \<in> set (columns df)) m)" by simp
    with True show ?thesis by simp
  qed
  then have "map (\<lambda>c. case map_of m c of Some n \<Rightarrow> n | None \<Rightarrow> c) (columns df) = columns df"
    by (simp add: map_idI)
  with True show ?thesis by (simp add: safe_rename_columns_def)
next
  case False
  let ?ex = "filter (\<lambda>p. fst p \<in> set (columns df)) m"
  have "map_of ?ex (fst p) = map_of m (fst p)" if "p \<in> set (cols df)" for p
    using that by (intro map_of_filter_keys) (simp add: columns_def)
  then have "columns (pd_rename df ?ex)
      = map (\<lambda>c. case map_of m c of Some n \<Rightarrow> n | None \<Rightarrow> c) (columns df)"
    by (simp add: pd_rename_def columns_def comp_def)
  moreover have "map snd (cols (pd_rename df ?ex)) = map snd (cols df)"
    by (simp add: pd_rename_def comp_def)
  ultimately show ?thesis
    using False by (simp add: safe_rename_columns_def pd_rename_def)
qed

lemma safe_rename_absent:
  assumes "set (map fst m) \<inter> set (columns df) = {}"
  shows "safe_rename_columns df m = Inr df"
proof -
  have "filter (\<lambda>p. fst p \<in> set (columns df)) m = []"
    using assms by (auto simp: filter_empty_conv)
  then show ?thesis by (simp add: safe_rename_columns_def)
qed

lemma safe_drop_effect:
  "\<exists>df'. safe_drop_columns df cs = Inr df' \<and> nrows df' = nrows df
      \<and> cols df' = filter (\<lambda>p. fst p \<notin> set cs) (cols df)"
proof (cases "filter (\<lambda>c. c \<in> set (columns df)) cs = []")
  case True
  then have "fst p \<notin> set cs" if "p \<in> set (cols df)" for p
    using that by (auto simp: filter_empty_conv columns_def)
  then have "filter (\<lambda>p. fst p \<notin> set cs) (cols df) = cols df"
    by (simp add: filter_id_conv)
  with True show ?thesis by (simp add: safe_drop_columns_def)
next
  case False
  let ?ex = "filter (\<lambda>c. c \<in> set (columns df)) cs"
  have a: "filter (\<lambda>c. c \<notin> set (columns df)) ?ex = []"
    by (simp add: filter_empty_conv)
  have b: "filter (\<lambda>p. fst p \<notin> set ?ex) (cols df) = filter (\<lambda>p. fst p \<notin> set cs) (cols df)"
    by (rule filter_cong) (auto simp: columns_def)
  show ?thesis
    using False a b by (simp add: safe_drop_columns_def pd_drop_def)
qed

text \<open>
  C9. \<^verbatim>\<open>safe_rename_columns\<close> and \<^verbatim>\<open>safe_drop_columns\<close> return a table for every table and
  every mapping or drop list, so they never raise. Renaming relabels exactly the columns
  that are keys of the mapping, keeps every series and the column order, and returns
  the table itself when no key is a column. Dropping removes exactly the listed columns
  that are there and keeps the others with their series.
\<close>

theorem safe_helpers_never_raise:
  "(\<exists>df'. safe_rename_columns df m = Inr df' \<and> nrows df' = nrows df
        \<and> map snd (cols df') = map snd (cols df)
        \<and> columns df' = map (\<lambda>c. case map_of m c of Some n \<Rightarrow> n | None \<Rightarrow> c) (columns df)
        \<and> (set (map fst m) \<inter> set (columns df) = {} \<longrightarrow> df' = df))
   \<and> (\<exists>df'. safe_drop_columns df cs = Inr df' \<and> nrows df' = nrows df
        \<and> cols df' = filter (\<lambda>p. fst p \<notin> set cs) (cols df))"
  using safe_rename_effect [of df m] safe_rename_absent [of m df] safe_drop_effect [of df cs]
  by auto

text \<open>
  C7. \<^verbatim>\<open>transform_meters\<close> on a non-empty table without a \<^verbatim>\<open>billableTo\<close> column raises
  \<^verbatim>\<open>KeyError\<close>, and so does \<^verbatim>\<open>transform_contracts\<close> on a non-empty table without an
  \<^verbatim>\<open>endDate\<close> column: the assignment of the sentinel reads the column without checking
  that it is there. The witness is such a table.
\<close>

theorem sentinel_column_absent_raises:
  assumes "\<not> df_empty df"
  shows "(''billableTo'' \<notin> set (columns df)
            \<longrightarrow> transform_meters df = Inl (KeyError ''billableTo''))
       \<and> (''endDate'' \<notin> set (columns df)
            \<longrightarrow> transform_contracts df = Inl (KeyError ''endDate''))"
proof (intro conjI impI)
  assume a: "''billableTo'' \<notin> set (columns df)"
  let ?m = "[(''id'', ''meterId''), (''activeState'', ''meterActiveState'')]"
  obtain df1 where r: "safe_rename_columns df ?m = Inr df1"
    and l1: "map_of (cols df1) ''billableTo'' = map_of (cols df) ''billableTo''"
    using safe_rename_lookup [of "''billableTo''" ?m df] by auto
  from a l1 have "getitem df1 ''billableTo'' = Inl (KeyError ''billableTo'')"
    by (simp add: getitem_Inl columns_mem)
  with assms r show "transform_meters df = Inl (KeyError ''billableTo'')"
    by (simp add: transform_meters_def)
next
  assume a: "''endDate'' \<notin> set (columns df)"
  let ?m = "[(''id'', ''contractId''), (''name'', ''contractName''),
             (''activeState'', ''contractActiveState'')]"
  define df0 where "df0 = (case map_of (cols df) ''product'' of
                     Some ps \<Rightarrow> setitem df ''productName'' (map product_name ps)
                   | None \<Rightarrow> setitem_scalar df ''productName'' PyNone)"
  have l0: "map_of (cols df0) ''endDate'' = map_of (cols df) ''endDate''"
    by (simp add: df0_def setitem_scalar_def setitem_def update_conv' split: option.splits)
  obtain df1 where r: "safe_rename_columns df0 ?m = Inr df1"
    and l1: "map_of (cols df1) ''endDate'' = map_of (cols df0) ''endDate''"
    using safe_rename_lookup [of "''endDate''" ?m df0] by auto
  obtain df2 where s: "select_columns df1 (filter (\<lambda>c. c \<in> set (columns df1)) required_columns)
                         = Inr df2"
    and l2: "\<And>k. map_of (cols df2) k
                 = (if k \<in> set required_columns then map_of (cols df1) k else None)"
    using select_available_lookup [of df1 required_columns] by blast
  from a l0 l1 l2 have "getitem df2 ''endDate'' = Inl (KeyError ''endDate'')"
    by (simp add: getitem_Inl columns_mem)
  with assms r s show "transform_contracts df = Inl (KeyError ''endDate'')"
    by (simp add: transform_contracts_def df0_def [symmetric] Let_def)
qed

theorem safe_helpers_never_raise_witness:
  "safe_rename_columns \<lparr>nrows = 1, cols = [(''id'', [Num 1]), (''name'', [Str ''Main''])]\<rparr>
       [(''id'', ''areaId''), (''activeState'', ''areaActiveState'')]
     = Inr \<lparr>nrows = 1, cols = [(''areaId'', [Num 1]), (''name'', [Str ''Main''])]\<rparr>
   \<and> set (map fst [(''activeState'', ''areaActiveState'')])
         \<inter> set (columns \<lparr>nrows = 1, cols = [(''id'', [Num 1]), (''name'', [Str ''Main''])]\<rparr>) = {}
   \<and> safe_rename_columns \<lparr>nrows = 1, cols = [(''id'', [Num 1]), (''name'', [Str ''Main''])]\<rparr>
       [(''activeState'', ''areaActiveState'')]
     = Inr \<lparr>nrows = 1, cols = [(''id'', [Num 1]), (''name'', [Str ''Main''])]\<rparr>
   \<and> safe_drop_columns \<lparr>nrows = 1, cols = [(''id'', [Num 1]), (''name'', [Str ''Main''])]\<rparr>
       [''name'', ''participations'']
     = Inr \<lparr>nrows = 1, cols = [(''id'', [Num 1])]\<rparr>"
proof -
  let ?D = "\<lparr>nrows = 1, cols = [(''id'', [Num 1]), (''name'', [Str ''Main''])]\<rparr>"
  have d: "set (map fst [(''activeState'', ''areaActiveState'')]) \<inter> set (columns ?D) = {}"
    by (simp add: columns_def)
  from safe_helpers_never_raise [of ?D "[(''activeState'', ''areaActiveState'')]" "[''name'', ''participations'']"] d
  have "safe_rename_columns ?D [(''activeState'', ''areaActiveState'')] = Inr ?D"
    and "safe_drop_columns ?D [''name'', ''participations''] = Inr \<lparr>nrows = 1, cols = [(''id'', [Num 1])]\<rparr>"
    by auto
  moreover have "safe_rename_columns ?D [(''id'', ''areaId''), (''activeState'', ''areaActiveState'')]
     = Inr \<lparr>nrows = 1, cols = [(''areaId'', [Num 1]), (''name'', [Str ''Main''])]\<rparr>"
    by (simp add: safe_rename_columns_def columns_def pd_rename_def)
  ultimately show ?thesis using d by simp
qed

theorem sentinel_column_absent_raises_witness:
  "\<not> df_empty \<lparr>nrows = 1, cols = [(''id'', [Num 7]), (''billableFrom'', [Str ''2024-01-01''])]\<rparr>
   \<and> ''billableTo'' \<notin> set (columns \<lparr>nrows = 1, cols = [(''id'', [Num 7]), (''billableFrom'', [Str ''2024-01-01''])]\<rparr>)
   \<and> ''endDate'' \<notin> set (columns \<lparr>nrows = 1, cols = [(''id'', [Num 7]), (''billableFrom'', [Str ''2024-01-01''])]\<rparr>)
   \<and> transform_meters \<lparr>nrows = 1, cols = [(''id'', [Num 7]), (''billableFrom'', [Str ''2024-01-01''])]\<rparr>
       = Inl (KeyError ''billableTo'')
   \<and> transform_contracts \<lparr>nrows = 1, cols = [(''id'', [Num 7]), (''billableFrom'', [Str ''2024-01-01''])]\<rparr>
       = Inl (KeyError ''endDate'')"
proof -
  let ?D = "\<lparr>nrows = 1, cols = [(''id'', [Num 7]), (''billableFrom'', [Str ''2024-01-01''])]\<rparr>"
  have ne: "\<not> df_empty ?D" by (simp add: df_empty_def)
  have a: "''billableTo'' \<notin> set (columns ?D)" "''endDate'' \<notin> set (columns ?D)"
    by (simp_all add: columns_def)
  from sentinel_column_absent_raises [OF ne] ne a show ?thesis by blast
qed



section \<open>Rows under a boolean mask\<close>

lemma mask_series_nth:
  "length keep = length vs \<Longrightarrow>
     mask_series keep vs = map ((!) vs) (filter ((!) keep) [0..<length vs])"
proof (induction keep vs rule: list_induct2)
  case Nil
  then show ?case by (simp add: mask_series_def)
next
  case (Cons k keep v vs)
  have "[0..<Suc (length vs)] = 0 # [Suc 0..<Suc (length vs)]"
    by (rule upt_conv_Cons) simp
  also have "[Suc 0..<Suc (length vs)] = map Suc [0..<length vs]"
    by (rule map_Suc_upt [symmetric])
  finally have u: "[0..<Suc (length vs)] = 0 # map Suc [0..<length vs]" .
  have "map ((!) (v # vs)) (filter ((!) (k # keep)) [0..<length (v # vs)])
      = (if k then [v] else []) @ map ((!) vs) (filter ((!) keep) [0..<length vs])"
    by (subst length_Cons, subst u) (simp add: filter_map comp_def del: upt_Suc)
  with Cons.IH show ?case
    by (simp add: mask_series_def)
qed

lemma filter_id_take_nth:
  "length keep = n \<Longrightarrow> filter id (take n keep) = map ((!) keep) (filter ((!) keep) [0..<n])"
proof -
  assume l: "length keep = n"
  have "filter id keep = filter id (map ((!) keep) [0..<length keep])"
    by (simp add: map_nth)
  also have "\<dots> = map ((!) keep) (filter ((!) keep) [0..<length keep])"
    by (simp add: filter_map comp_def)
  finally show ?thesis using l by simp
qed

lemma rows_of_bool_index:
  assumes wf: "wf_df df" and len: "length keep = nrows df"
  shows "rows_of (bool_index df keep) = map (row_at df) (filter ((!) keep) [0..<nrows df])"
proof -
  let ?idx = "filter ((!) keep) [0..<nrows df]"
  have n: "nrows (bool_index df keep) = length ?idx"
    using filter_id_take_nth [OF len] by (simp add: bool_index_def)
  have c: "mask_series keep (snd p) = map ((!) (snd p)) ?idx" if "p \<in> set (cols df)" for p
  proof -
    from wf that have "length (snd p) = nrows df"
      by (auto simp: wf_df_def list_all_iff)
    with len mask_series_nth [of keep "snd p"] show ?thesis by simp
  qed
  have "row_at (bool_index df keep) j = row_at df (?idx ! j)" if "j < length ?idx" for j
    using that c by (simp add: row_at_def bool_index_def)
  then have "map (row_at (bool_index df keep)) [0..<length ?idx]
        = map (\<lambda>j. row_at df (?idx ! j)) [0..<length ?idx]"
    by simp
  also have "\<dots> = map (row_at df) (map ((!) ?idx) [0..<length ?idx])"
    by (simp add: comp_def)
  also have "\<dots> = map (row_at df) ?idx"
    by (simp only: map_nth)
  finally show ?thesis
    by (simp add: rows_of_def n)
qed

lemma rows_of_bool_index_filter:
  assumes wf: "wf_df df" and len: "length keep = nrows df"
    and k: "\<And>i. i < nrows df \<Longrightarrow> keep ! i = P (row_at df i)"
  shows "rows_of (bool_index df keep) = filter P (rows_of df)"
proof -
  have "filter ((!) keep) [0..<nrows df] = filter (\<lambda>i. P (row_at df i)) [0..<nrows df]"
    by (rule filter_cong) (simp_all add: k)
  then show ?thesis
    unfolding rows_of_bool_index [OF wf len]
    by (simp add: rows_of_def filter_map comp_def)
qed

lemma map_of_nth_cells:
  "map_of (map (\<lambda>p. (fst p, snd p ! i)) xs) c = map_option (\<lambda>vs. vs ! i) (map_of xs c)"
  by (induction xs) auto

lemma map_of_row_at:
  "map_of (row_at df i) c = map_option (\<lambda>vs. vs ! i) (map_of (cols df) c)"
  by (simp add: row_at_def map_of_nth_cells)

lemma columns_bool_index: "columns (bool_index df keep) = columns df"
  by (simp add: columns_def bool_index_def comp_def)

lemma wf_series_length:
  "wf_df df \<Longrightarrow> map_of (cols df) c = Some vs \<Longrightarrow> length vs = nrows df"
  by (fastforce simp: wf_df_def list_all_iff dest: map_of_SomeD)

section \<open>The denylist on plain words\<close>
















section \<open>The filter stage\<close>






section \<open>The cross-linker\<close>

lemma to_dict_None:
  "length ks = length vs \<Longrightarrow> to_dict ks vs k = None \<longleftrightarrow> k \<notin> set ks"
  by (simp add: to_dict_def map_of_eq_None_iff flip: set_map)

lemma to_dict_last:
  "length ks = length vs \<Longrightarrow> j < length ks \<Longrightarrow> ks ! j = k
     \<Longrightarrow> (\<And>m. j < m \<Longrightarrow> m < length ks \<Longrightarrow> ks ! m \<noteq> k)
     \<Longrightarrow> to_dict ks vs k = Some (vs ! j)"
proof (induction ks vs arbitrary: j rule: list_induct2)
  case Nil
  then show ?case by simp
next
  case (Cons k0 ks v0 vs)
  show ?case
  proof (cases j)
    case 0
    have "k \<notin> set ks"
    proof
      assume "k \<in> set ks"
      then obtain m where "m < length ks" "ks ! m = k" by (auto simp: in_set_conv_nth)
      with Cons.prems(3) [of "Suc m"] 0 show False by simp
    qed
    then have "to_dict ks vs k = None" using Cons.hyps by (simp add: to_dict_None)
    with 0 Cons.prems(2) show ?thesis
      by (simp add: to_dict_def map_add_def)
  next
    case (Suc j')
    have "to_dict ks vs k = Some (vs ! j')"
    proof (rule Cons.IH)
      show "j' < length ks" using Cons.prems(1) Suc by simp
      show "ks ! j' = k" using Cons.prems(2) Suc by simp
      show "ks ! m \<noteq> k" if "j' < m" "m < length ks" for m
        using Cons.prems(3) [of "Suc m"] that Suc by simp
    qed
    with Suc show ?thesis
      by (simp add: to_dict_def map_add_def)
  qed
qed

lemma setitem_lookup:
  "map_of (cols (setitem df c vs)) k = (if k = c then Some vs else map_of (cols df) k)"
  by (simp add: setitem_def update_conv')

text \<open>
  C5. For non-empty tables with the columns the cross-linker reads
  (\<^verbatim>\<open>buildingId\<close> in both, \<^verbatim>\<open>areaId\<close> in the buildings), it returns the utility units with an
  \<^verbatim>\<open>areaId\<close> column and every other column as it was. The \<^verbatim>\<open>areaId\<close> of a unit is the
  \<^verbatim>\<open>areaId\<close> of the building row with the unit's \<^verbatim>\<open>buildingId\<close> (the last such row, should the
  id occur twice), and \<^verbatim>\<open>NaN\<close> when no building has that id.
\<close>

theorem cross_link_area_ids:
  assumes wfu: "wf_df dfu" and wfb: "wf_df dfb"
    and neu: "\<not> df_empty dfu" and neb: "\<not> df_empty dfb"
    and ub: "getitem dfu ''buildingId'' = Inr ubids"
    and bb: "getitem dfb ''buildingId'' = Inr bids"
    and ba: "getitem dfb ''areaId'' = Inr aids"
  shows "\<exists>dfu' out. link_utility_units dfu dfb = Inr dfu'
           \<and> nrows dfu' = nrows dfu
           \<and> (\<forall>c. c \<noteq> ''areaId'' \<longrightarrow> map_of (cols dfu') c = map_of (cols dfu) c)
           \<and> getitem dfu' ''areaId'' = Inr out \<and> length out = nrows dfu
           \<and> (\<forall>i<nrows dfu.
                 (ubids ! i \<notin> set bids \<longrightarrow> out ! i = NaN)
               \<and> (\<forall>j<nrows dfb. bids ! j = ubids ! i
                       \<and> (\<forall>m<nrows dfb. j < m \<longrightarrow> bids ! m \<noteq> ubids ! i)
                       \<longrightarrow> out ! i = aids ! j))"
proof -
  let ?out = "series_map ubids (to_dict bids aids)"
  let ?dfu' = "setitem dfu ''areaId'' ?out"
  have lu: "length ubids = nrows dfu" using wfu ub by (auto simp: getitem_Inr wf_series_length)
  have lb: "length bids = nrows dfb" using wfb bb by (auto simp: getitem_Inr wf_series_length)
  have la: "length aids = nrows dfb" using wfb ba by (auto simp: getitem_Inr wf_series_length)
  have cu: "''buildingId'' \<in> set (columns dfu)" using ub by (simp add: getitem_Inr columns_mem)
  have ca: "''areaId'' \<in> set (columns dfb)" using ba by (simp add: getitem_Inr columns_mem)
  have l: "link_utility_units dfu dfb = Inr ?dfu'"
    using neu neb cu ca ub bb ba by (simp add: link_utility_units_def)
  have miss: "?out ! i = NaN" if "i < nrows dfu" "ubids ! i \<notin> set bids" for i
  proof -
    from that(2) lb la have "to_dict bids aids (ubids ! i) = None"
      by (simp add: to_dict_None)
    with that(1) lu show ?thesis by (simp add: series_map_def)
  qed
  have hit: "?out ! i = aids ! j"
    if "i < nrows dfu" "j < nrows dfb" "bids ! j = ubids ! i"
      "\<forall>m<nrows dfb. j < m \<longrightarrow> bids ! m \<noteq> ubids ! i" for i j
  proof -
    have "to_dict bids aids (ubids ! i) = Some (aids ! j)"
      using that lb la by (intro to_dict_last) simp_all
    with that(1) lu show ?thesis by (simp add: series_map_def)
  qed
  have "getitem ?dfu' ''areaId'' = Inr ?out"
    by (simp add: getitem_Inr setitem_lookup)
  moreover have "length ?out = nrows dfu" using lu by (simp add: series_map_def)
  moreover have "nrows ?dfu' = nrows dfu" by (simp add: setitem_def)
  moreover have "\<forall>c. c \<noteq> ''areaId'' \<longrightarrow> map_of (cols ?dfu') c = map_of (cols dfu) c"
    by (simp add: setitem_lookup)
  ultimately show ?thesis
    using l miss hit by blast
qed

theorem cross_link_area_ids_witness:
  "wf_df \<lparr>nrows = 2, cols = [(''utilityUnitId'', [Str ''U1'', Str ''U2'']), (''buildingId'', [Str ''B1'', Str ''B3''])]\<rparr>
   \<and> wf_df \<lparr>nrows = 2, cols = [(''buildingId'', [Str ''B1'', Str ''B2'']), (''areaId'', [Str ''A1'', Str ''A2''])]\<rparr>
   \<and> \<not> df_empty \<lparr>nrows = 2, cols = [(''utilityUnitId'', [Str ''U1'', Str ''U2'']), (''buildingId'', [Str ''B1'', Str ''B3''])]\<rparr>
   \<and> \<not> df_empty \<lparr>nrows = 2, cols = [(''buildingId'', [Str ''B1'', Str ''B2'']), (''areaId'', [Str ''A1'', Str ''A2''])]\<rparr>
   \<and> (\<exists>dfu'. link_utility_units
           \<lparr>nrows = 2, cols = [(''utilityUnitId'', [Str ''U1'', Str ''U2'']), (''buildingId'', [Str ''B1'', Str ''B3''])]\<rparr>
           \<lparr>nrows = 2, cols = [(''buildingId'', [Str ''B1'', Str ''B2'']), (''areaId'', [Str ''A1'', Str ''A2''])]\<rparr>
         = Inr dfu'
         \<and> getitem dfu' ''utilityUnitId'' = Inr [Str ''U1'', Str ''U2'']
         \<and> getitem dfu' ''areaId'' = Inr [Str ''A1'', NaN])"
proof -
  let ?U = "\<lparr>nrows = 2, cols = [(''utilityUnitId'', [Str ''U1'', Str ''U2'']), (''buildingId'', [Str ''B1'', Str ''B3''])]\<rparr>"
  let ?B = "\<lparr>nrows = 2, cols = [(''buildingId'', [Str ''B1'', Str ''B2'']), (''areaId'', [Str ''A1'', Str ''A2''])]\<rparr>"
  have wu: "wf_df ?U" and wb: "wf_df ?B" by (simp_all add: wf_df_def columns_def)
  have nu: "\<not> df_empty ?U" and nb: "\<not> df_empty ?B" by (simp_all add: df_empty_def)
  have ub: "getitem ?U ''buildingId'' = Inr [Str ''B1'', Str ''B3'']"
    and bb: "getitem ?B ''buildingId'' = Inr [Str ''B1'', Str ''B2'']"
    and ba: "getitem ?B ''areaId'' = Inr [Str ''A1'', Str ''A2'']"
    by (simp_all add: getitem_def)
  from cross_link_area_ids [OF wu wb nu nb ub bb ba]
  obtain dfu' out where l: "link_utility_units ?U ?B = Inr dfu'"
    and k: "\<forall>c. c \<noteq> ''areaId'' \<longrightarrow> map_of (cols dfu') c = map_of (cols ?U) c"
    and g: "getitem dfu' ''areaId'' = Inr out" and n: "length out = 2"
    and o: "\<forall>i<2. ([Str ''B1'', Str ''B3''] ! i \<notin> set [Str ''B1'', Str ''B2''] \<longrightarrow> out ! i = NaN)
               \<and> (\<forall>j<2. [Str ''B1'', Str ''B2''] ! j = [Str ''B1'', Str ''B3''] ! i
                       \<and> (\<forall>m<2. j < m \<longrightarrow> [Str ''B1'', Str ''B2''] ! m \<noteq> [Str ''B1'', Str ''B3''] ! i)
                       \<longrightarrow> out ! i = [Str ''A1'', Str ''A2''] ! j)"
    by auto
  from o [rule_format, of 1] have o1: "out ! 1 = NaN" by simp
  from o [rule_format, of 0] have "\<forall>j<2. [Str ''B1'', Str ''B2''] ! j = Str ''B1''
                       \<and> (\<forall>m<2. j < m \<longrightarrow> [Str ''B1'', Str ''B2''] ! m \<noteq> Str ''B1'')
                       \<longrightarrow> out ! 0 = [Str ''A1'', Str ''A2''] ! j"
    by simp
  from this [rule_format, of 0] have o0: "out ! 0 = Str ''A1''"
    by (simp add: less_Suc_eq numeral_2_eq_2)
  from n o0 o1 have "out = [Str ''A1'', NaN]"
    by (auto simp: list_eq_iff_nth_eq less_Suc_eq numeral_2_eq_2)
  moreover from k have "getitem dfu' ''utilityUnitId'' = Inr [Str ''U1'', Str ''U2'']"
    by (simp add: getitem_def)
  ultimately show ?thesis
    using l g wu wb nu nb by blast
qed

section \<open>The exporter on empty tables\<close>

lemma export_empty:
  "df_empty df \<Longrightarrow> export_dataframe_to_csv env df file_path table_name w
      = (False, log_event WARNING (No_data_to_export table_name) w)"
  by (simp add: export_dataframe_to_csv_def)

lemma export_loop_other:
  "table_name \<notin> fst ` set dfs \<Longrightarrow>
     map_of (fst (export_loop env base subs dfs res w)) table_name = map_of res table_name"
proof (induction dfs arbitrary: res w)
  case Nil
  then show ?case by simp
next
  case (Cons p dfs)
  obtain n d where p: "p = (n, d)" by (cases p)
  with Cons.prems have ne: "n \<noteq> table_name" and rest: "table_name \<notin> fst ` set dfs" by auto
  show ?case
    using ne by (simp add: p Cons.IH [OF rest] update_conv' split: prod.splits)
qed

lemma export_loop_empty:
  "distinct (map fst dfs) \<Longrightarrow> (table_name, df) \<in> set dfs \<Longrightarrow> df_empty df
     \<Longrightarrow> table_name \<in> set subs
     \<Longrightarrow> map_of (fst (export_loop env base subs dfs res w)) table_name = Some False"
proof (induction dfs arbitrary: res w)
  case Nil
  then show ?case by simp
next
  case (Cons p dfs)
  obtain n d where p: "p = (n, d)" by (cases p)
  show ?case
  proof (cases "n = table_name")
    case True
    with Cons.prems(1,2) p have d: "d = df" and rest: "table_name \<notin> fst ` set dfs"
      by (auto simp: image_iff)
    show ?thesis
      using True d Cons.prems(3,4)
      by (simp add: p export_empty export_loop_other [OF rest] update_conv')
  next
    case False
    with Cons.prems(2) p have "(table_name, df) \<in> set dfs" by auto
    moreover from Cons.prems(1) have "distinct (map fst dfs)" by simp
    ultimately have "\<And>res w. map_of (fst (export_loop env base subs dfs res w)) table_name = Some False"
      using Cons.IH Cons.prems(3,4) by blast
    then show ?thesis
      by (simp add: p split: prod.splits)
  qed
qed

lemma create_export_directories_ok:
  "(\<And>d. \<not> mkdir_fails env d) \<Longrightarrow> \<exists>w1. create_export_directories env base subs w = (Inr (), w1)"
  by (induction subs arbitrary: w) (simp_all add: Let_def)

text \<open>
  C2, as the code has it. For an empty table \<^verbatim>\<open>export_dataframe_to_csv\<close> writes no file,
  logs the warning that there is no data, and returns \<^verbatim>\<open>False\<close>, which is also what it
  returns after an I/O error. So in \<^verbatim>\<open>export_all_data\<close> the result of an empty table whose
  name is a configured subdirectory is \<^verbatim>\<open>False\<close>, and the table is listed among the failed
  exports of the summary.
\<close>

theorem empty_export_counts_as_failed:
  assumes "df_empty df"
  shows "(\<exists>w'. export_dataframe_to_csv env df file_path table_name w = (False, w')
             \<and> files w' = files w
             \<and> logged w' = logged w @ [(WARNING, No_data_to_export table_name)])
       \<and> (\<forall>df2. \<not> df_empty df2 \<and> write_fails env file_path
             \<longrightarrow> fst (export_dataframe_to_csv env df2 file_path table_name w) = False)
       \<and> (\<forall>base. distinct (map fst dataframes) \<and> (table_name, df) \<in> set dataframes
             \<and> table_name \<in> set (configured_subdirectories env)
             \<and> export_base_path env = Some base \<and> base \<noteq> [] \<and> (\<forall>d. \<not> mkdir_fails env d)
             \<longrightarrow> (\<exists>summary w'. export_all_data env dataframes w = (Inr summary, w')
                    \<and> map_of (export_results summary) table_name = Some False
                    \<and> table_name \<in> set (failed_exports summary)))"
proof (intro conjI allI impI)
  show "\<exists>w'. export_dataframe_to_csv env df file_path table_name w = (False, w')
             \<and> files w' = files w
             \<and> logged w' = logged w @ [(WARNING, No_data_to_export table_name)]"
    using assms by (simp add: export_empty log_event_def)
next
  fix df2
  assume "\<not> df_empty df2 \<and> write_fails env file_path"
  then show "fst (export_dataframe_to_csv env df2 file_path table_name w) = False"
    by (simp add: export_dataframe_to_csv_def)
next
  fix base
  assume h: "distinct (map fst dataframes) \<and> (table_name, df) \<in> set dataframes
             \<and> table_name \<in> set (configured_subdirectories env)
             \<and> export_base_path env = Some base \<and> base \<noteq> [] \<and> (\<forall>d. \<not> mkdir_fails env d)"
  let ?subs = "configured_subdirectories env"
  from h obtain w1 where c: "create_export_directories env base ?subs w = (Inr (), w1)"
    using create_export_directories_ok [of env base ?subs w] by blast
  obtain results w2 where l: "export_loop env base ?subs dataframes [] w1 = (results, w2)"
    by (cases "export_loop env base ?subs dataframes [] w1")
  from h assms have "map_of (fst (export_loop env base ?subs dataframes [] w1)) table_name = Some False"
    by (intro export_loop_empty) simp_all
  with l have r: "map_of results table_name = Some False" by simp
  then have "(table_name, False) \<in> set results" by (rule map_of_SomeD)
  then have "(table_name, False) \<in> set (filter (\<lambda>p. \<not> snd p) results)" by simp
  then have f: "table_name \<in> set (map fst (filter (\<lambda>p. \<not> snd p) results))" by force
  show "\<exists>summary w'. export_all_data env dataframes w = (Inr summary, w')
                    \<and> map_of (export_results summary) table_name = Some False
                    \<and> table_name \<in> set (failed_exports summary)"
    using h c l r f by (simp add: export_all_data_def Let_def)
qed

text \<open>
  One empty table, \<^verbatim>\<open>areas\<close>, and a disk that refuses nothing: the summary lists \<^verbatim>\<open>areas\<close>
  among the failed exports.
\<close>

theorem empty_export_counterexample:
  "fst (export_all_data
          \<lparr>export_base_path = Some ''/data'', export_subdirectories = None, today = ''20261104'',
           write_fails = (\<lambda>p. False), mkdir_fails = (\<lambda>p. False)\<rparr>
          [(''areas'', \<lparr>nrows = 0, cols = [(''loadDate'', [])]\<rparr>)]
          \<lparr>files = [], dirs = [], logged = []\<rparr>)
     = Inr \<lparr>export_results = [(''areas'', False)], successful_exports = 0, total_exports = 1,
            failed_exports = [''areas'']\<rparr>
   \<and> df_empty \<lparr>nrows = 0, cols = [(''loadDate'', [])]\<rparr>"
  by code_simp

theorem empty_export_counts_as_failed_witness:
  "df_empty \<lparr>nrows = 0, cols = [(''loadDate'', [])]\<rparr>
   \<and> \<not> df_empty \<lparr>nrows = 1, cols = [(''contractId'', [Num 1])]\<rparr>
   \<and> fst (export_dataframe_to_csv
          \<lparr>export_base_path = Some ''/data'', export_subdirectories = Some ''areas,contracts'',
           today = ''20261104'', write_fails = (\<lambda>p. True), mkdir_fails = (\<lambda>p. False)\<rparr>
          \<lparr>nrows = 1, cols = [(''contractId'', [Num 1])]\<rparr>
          ''/data/areas/20261104_areas.csv'' ''areas'' \<lparr>files = [], dirs = [], logged = []\<rparr>) = False
   \<and> distinct (map fst [(''areas'', \<lparr>nrows = 0, cols = [(''loadDate'', [])]\<rparr>),
                          (''contracts'', \<lparr>nrows = 1, cols = [(''contractId'', [Num 1])]\<rparr>)])
   \<and> ''areas'' \<in> set (configured_subdirectories
          \<lparr>export_base_path = Some ''/data'', export_subdirectories = Some ''areas,contracts'',
           today = ''20261104'', write_fails = (\<lambda>p. True), mkdir_fails = (\<lambda>p. False)\<rparr>)
   \<and> (\<exists>summary w'. export_all_data
          \<lparr>export_base_path = Some ''/data'', export_subdirectories = Some ''areas,contracts'',
           today = ''20261104'', write_fails = (\<lambda>p. True), mkdir_fails = (\<lambda>p. False)\<rparr>
          [(''areas'', \<lparr>nrows = 0, cols = [(''loadDate'', [])]\<rparr>),
           (''contracts'', \<lparr>nrows = 1, cols = [(''contractId'', [Num 1])]\<rparr>)]
          \<lparr>files = [], dirs = [], logged = []\<rparr> = (Inr summary, w')
         \<and> ''areas'' \<in> set (failed_exports summary))"
proof -
  let ?env = "\<lparr>export_base_path = Some ''/data'', export_subdirectories = Some ''areas,contracts'',
           today = ''20261104'', write_fails = (\<lambda>p. True), mkdir_fails = (\<lambda>p. False)\<rparr>"
  let ?E = "\<lparr>nrows = 0, cols = [(''loadDate'', [])]\<rparr>"
  let ?C = "\<lparr>nrows = 1, cols = [(''contractId'', [Num 1])]\<rparr>"
  let ?w = "\<lparr>files = [], dirs = [], logged = []\<rparr>"
  have e: "df_empty ?E" and c: "\<not> df_empty ?C" by (simp_all add: df_empty_def)
  have d: "distinct (map fst [(''areas'', ?E), (''contracts'', ?C)])" by simp
  have s: "''areas'' \<in> set (configured_subdirectories ?env)"
    by (simp add: configured_subdirectories_def)
  note t = empty_export_counts_as_failed [OF e, of ?env "''/data/areas/20261104_areas.csv''" "''areas''" ?w
      "[(''areas'', ?E), (''contracts'', ?C)]"]
  from t c have "fst (export_dataframe_to_csv ?env ?C ''/data/areas/20261104_areas.csv'' ''areas'' ?w) = False"
    by simp
  moreover from t d s have "\<exists>summary w'. export_all_data ?env [(''areas'', ?E), (''contracts'', ?C)] ?w
        = (Inr summary, w') \<and> ''areas'' \<in> set (failed_exports summary)"
    by simp blast
  ultimately show ?thesis using e c d s by blast
qed


section \<open>Authentication with retries\<close>

lemma login_body_raises:
  "replies s (n_posts s) = Raises e \<Longrightarrow> login_body s = (Inl e, s\<lparr>n_posts := Suc (n_posts s)\<rparr>)"
  by (simp add: login_body_def)

lemma login_body_token:
  "replies s (n_posts s) = Json_object (Some token) \<Longrightarrow> token \<noteq> [] \<Longrightarrow>
     login_body s = (Inr True, s\<lparr>n_posts := Suc (n_posts s), auth_header := Some (bearer token)\<rparr>)"
  by (simp add: login_body_def)

lemma login_body_no_token:
  "replies s (n_posts s) = Json_object None \<or> replies s (n_posts s) = Json_object (Some [])
     \<Longrightarrow> login_body s = (Inr False, s\<lparr>n_posts := Suc (n_posts s)\<rparr>)"
  by (auto simp: login_body_def)

text \<open>
  C3, as the code has it. Let the first \<open>k < 3\<close> requests raise. If request \<open>k\<close> is
  answered with a token that is not empty, \<^verbatim>\<open>login\<close> stores the bearer header and returns
  \<^verbatim>\<open>True\<close>. If it is answered without a token (none, null or empty), \<^verbatim>\<open>login\<close> returns
  \<^verbatim>\<open>False\<close>: it does not raise, does not try again and stores nothing. If all three
  requests raise, \<^verbatim>\<open>login\<close> raises the exception of the third. Before each new attempt
  it sleeps 2 seconds.
\<close>

theorem login_outcomes:
  "(\<forall>k<3. (\<forall>i<k. \<exists>e. replies s (n_posts s + i) = Raises e) \<longrightarrow>
       (\<forall>token. replies s (n_posts s + k) = Json_object (Some token) \<and> token \<noteq> [] \<longrightarrow>
          login s = (Inr (Some True),
                     s\<lparr>n_posts := n_posts s + k + 1, slept := slept s @ replicate k 2,
                       auth_header := Some (bearer token)\<rparr>))
     \<and> (replies s (n_posts s + k) = Json_object None
          \<or> replies s (n_posts s + k) = Json_object (Some []) \<longrightarrow>
          login s = (Inr (Some False),
                     s\<lparr>n_posts := n_posts s + k + 1, slept := slept s @ replicate k 2\<rparr>)))
   \<and> ((\<forall>i<3. \<exists>e. replies s (n_posts s + i) = Raises e) \<longrightarrow>
        (\<exists>e. replies s (n_posts s + 2) = Raises e
           \<and> login s = (Inl e, s\<lparr>n_posts := n_posts s + 3, slept := slept s @ [2, 2]\<rparr>)))"
proof -
  let ?s1 = "time_sleep 2 (s\<lparr>n_posts := Suc (n_posts s)\<rparr>)"
  let ?s2 = "time_sleep 2 (?s1\<lparr>n_posts := Suc (n_posts ?s1)\<rparr>)"
  have l: "login s = retry_loop 3 (Suc (Suc (Suc 0))) (time_sleep 2) login_body s"
    by (simp add: login_def retry_on_failure_def numeral_3_eq_3)
  have n1: "n_posts ?s1 = n_posts s + 1" "replies ?s1 = replies s"
    and n2: "n_posts ?s2 = n_posts s + 2" "replies ?s2 = replies s"
    by (simp_all add: time_sleep_def)
  have k0: "login s = (case login_body s of (Inr r, s') \<Rightarrow> (Inr (Some r), s')
                        | (Inl e, s') \<Rightarrow> retry_loop 3 (Suc (Suc 0)) (time_sleep 2) login_body (time_sleep 2 s'))"
    unfolding l by (simp add: Let_def split: prod.splits sum.splits)
  have k1: "retry_loop 3 (Suc (Suc 0)) (time_sleep 2) login_body t
      = (case login_body t of (Inr r, s') \<Rightarrow> (Inr (Some r), s')
          | (Inl e, s') \<Rightarrow> retry_loop 3 (Suc 0) (time_sleep 2) login_body (time_sleep 2 s'))" for t
    by (simp add: Let_def split: prod.splits sum.splits)
  have k2: "retry_loop 3 (Suc 0) (time_sleep 2) login_body t
      = (case login_body t of (Inr r, s') \<Rightarrow> (Inr (Some r), s') | (Inl e, s') \<Rightarrow> (Inl e, s'))" for t
    by (simp add: Let_def split: prod.splits sum.splits)
  show ?thesis
  proof (intro conjI allI impI)
    fix k token
    assume k: "k < 3" and r: "\<forall>i<k. \<exists>e. replies s (n_posts s + i) = Raises e"
      and t: "replies s (n_posts s + k) = Json_object (Some token) \<and> token \<noteq> []"
    from k consider "k = 0" | "k = 1" | "k = 2" by linarith
    then show "login s = (Inr (Some True),
                     s\<lparr>n_posts := n_posts s + k + 1, slept := slept s @ replicate k 2,
                       auth_header := Some (bearer token)\<rparr>)"
    proof cases
      case 1
      with t show ?thesis by (simp add: k0 login_body_token)
    next
      case 2
      with r obtain e where "replies s (n_posts s) = Raises e" by force
      with 2 t show ?thesis
        by (simp add: k0 k1 login_body_raises login_body_token n1 time_sleep_def)
    next
      case 2: 3
      with r [rule_format, of 0] r [rule_format, of 1]
      obtain e0 e1 where "replies s (n_posts s) = Raises e0" "replies s (n_posts s + 1) = Raises e1"
        by auto
      with 2 t show ?thesis
        by (simp add: k0 k1 k2 login_body_raises login_body_token time_sleep_def numeral_2_eq_2)
    qed
  next
    fix k
    assume k: "k < 3" and r: "\<forall>i<k. \<exists>e. replies s (n_posts s + i) = Raises e"
      and t: "replies s (n_posts s + k) = Json_object None
          \<or> replies s (n_posts s + k) = Json_object (Some [])"
    from k consider "k = 0" | "k = 1" | "k = 2" by linarith
    then show "login s = (Inr (Some False),
                     s\<lparr>n_posts := n_posts s + k + 1, slept := slept s @ replicate k 2\<rparr>)"
    proof cases
      case 1
      with t show ?thesis by (simp add: k0 login_body_no_token)
    next
      case 2
      with r obtain e where "replies s (n_posts s) = Raises e" by force
      with 2 t show ?thesis
        by (simp add: k0 k1 login_body_raises login_body_no_token time_sleep_def)
    next
      case 2: 3
      with r [rule_format, of 0] r [rule_format, of 1]
      obtain e0 e1 where "replies s (n_posts s) = Raises e0" "replies s (n_posts s + 1) = Raises e1"
        by auto
      with 2 t show ?thesis
        by (simp add: k0 k1 k2 login_body_raises login_body_no_token time_sleep_def numeral_2_eq_2)
    qed
  next
    assume r: "\<forall>i<3. \<exists>e. replies s (n_posts s + i) = Raises e"
    from r [rule_format, of 0] r [rule_format, of 1] r [rule_format, of 2]
    obtain e0 e1 e2 where e: "replies s (n_posts s) = Raises e0"
      "replies s (n_posts s + 1) = Raises e1" "replies s (n_posts s + 2) = Raises e2"
      by auto
    then have "login s = (Inl e2, s\<lparr>n_posts := n_posts s + 3, slept := slept s @ [2, 2]\<rparr>)"
      by (simp add: k0 k1 k2 login_body_raises time_sleep_def numeral_2_eq_2 numeral_3_eq_3)
    with e(3) show "\<exists>e. replies s (n_posts s + 2) = Raises e
           \<and> login s = (Inl e, s\<lparr>n_posts := n_posts s + 3, slept := slept s @ [2, 2]\<rparr>)"
      by blast
  qed
qed

theorem login_outcomes_witness:
  "fst (login \<lparr>replies = (\<lambda>n. if n < 2 then Raises RequestException else Json_object (Some ''tok'')),
               n_posts = 0, slept = [], auth_header = None\<rparr>) = Inr (Some True)
   \<and> auth_header (snd (login \<lparr>replies = (\<lambda>n. if n < 2 then Raises RequestException
                                                else Json_object (Some ''tok'')),
               n_posts = 0, slept = [], auth_header = None\<rparr>)) = Some (bearer ''tok'')
   \<and> slept (snd (login \<lparr>replies = (\<lambda>n. if n < 2 then Raises RequestException
                                                else Json_object (Some ''tok'')),
               n_posts = 0, slept = [], auth_header = None\<rparr>)) = [2, 2]
   \<and> fst (login \<lparr>replies = (\<lambda>n. Raises RequestException),
               n_posts = 0, slept = [], auth_header = None\<rparr>) = Inl RequestException
   \<and> auth_header (snd (login \<lparr>replies = (\<lambda>n. Raises RequestException),
               n_posts = 0, slept = [], auth_header = None\<rparr>)) = None"
proof -
  let ?S = "\<lparr>replies = (\<lambda>n. if n < 2 then Raises RequestException else Json_object (Some ''tok'')),
               n_posts = 0, slept = [], auth_header = None\<rparr>"
  let ?T = "\<lparr>replies = (\<lambda>n::nat. Raises RequestException),
               n_posts = 0, slept = [], auth_header = None\<rparr>"
  have a: "\<forall>i<2. \<exists>e. replies ?S (n_posts ?S + i) = Raises e" by simp
  have b: "replies ?S (n_posts ?S + 2) = Json_object (Some ''tok'') \<and> ''tok'' \<noteq> []" by simp
  from login_outcomes [of ?S, THEN conjunct1, THEN spec [where x = 2]] a b
  have "login ?S = (Inr (Some True),
                     ?S\<lparr>n_posts := n_posts ?S + 2 + 1, slept := slept ?S @ replicate 2 2,
                       auth_header := Some (bearer ''tok'')\<rparr>)"
    by simp
  then have s: "fst (login ?S) = Inr (Some True)" "auth_header (snd (login ?S)) = Some (bearer ''tok'')"
    "slept (snd (login ?S)) = [2, 2]"
    by (simp_all add: numeral_2_eq_2)
  have c: "\<forall>i<3. \<exists>e. replies ?T (n_posts ?T + i) = Raises e" by simp
  from login_outcomes [of ?T, THEN conjunct2, THEN mp, OF c]
  have "fst (login ?T) = Inl RequestException" "auth_header (snd (login ?T)) = None"
    by auto
  with s show ?thesis by simp
qed

text \<open>
  A reply without a token: \<^verbatim>\<open>login\<close> returns \<^verbatim>\<open>False\<close> after one request, raises nothing
  and leaves the session without a header.
\<close>

theorem login_no_token_counterexample:
  "fst (login \<lparr>replies = (\<lambda>n. Json_object None), n_posts = 0, slept = [], auth_header = None\<rparr>)
     = Inr (Some False)
   \<and> n_posts (snd (login \<lparr>replies = (\<lambda>n. Json_object None), n_posts = 0, slept = [],
                             auth_header = None\<rparr>)) = 1
   \<and> auth_header (snd (login \<lparr>replies = (\<lambda>n. Json_object None), n_posts = 0, slept = [],
                             auth_header = None\<rparr>)) = None"
  by (simp add: login_def retry_on_failure_def numeral_3_eq_3 login_body_def)


section \<open>The excluded manager\<close>

lemma mask_series_map: "mask_series (map P vs) vs = filter P vs"
  by (induction vs) (auto simp: mask_series_def)

lemma bool_index_lookup:
  "map_of (cols (bool_index df keep)) c = map_option (mask_series keep) (map_of (cols df) c)"
proof -
  have "map_of (map (\<lambda>p. (fst p, f (snd p))) xs) c = map_option f (map_of xs c)" for f and xs :: "(string \<times> val list) list"
    by (induction xs) auto
  then show ?thesis by (simp add: bool_index_def)
qed

lemma exclude_email_rows:
  assumes wf: "wf_df df" and es: "getitem df ''email'' = Inr es"
  shows "\<exists>df'. exclude_email df = Inr df' \<and> columns df' = columns df
           \<and> rows_of df' = filter (\<lambda>r. map_of r ''email'' \<noteq> Some excluded_email) (rows_of df)"
proof -
  let ?keep = "map (\<lambda>v. \<not> v \<in> set [excluded_email]) es"
  have vs: "map_of (cols df) ''email'' = Some es" using es by (simp add: getitem_Inr)
  have len: "length es = nrows df" using wf vs by (rule wf_series_length)
  have "?keep ! i = (map_of (row_at df i) ''email'' \<noteq> Some excluded_email)" if "i < nrows df" for i
    using that len vs by (simp add: map_of_row_at)
  then have "rows_of (bool_index df ?keep)
      = filter (\<lambda>r. map_of r ''email'' \<noteq> Some excluded_email) (rows_of df)"
    using wf len by (intro rows_of_bool_index_filter) simp_all
  then show ?thesis
    using es by (simp add: exclude_email_def columns_bool_index)
qed

lemma exclude_email_column:
  assumes "exclude_email df = Inr df'"
  shows "\<exists>es. map_of (cols df') ''email'' = Some es \<and> excluded_email \<notin> set es"
proof -
  from assms obtain es where es: "map_of (cols df) ''email'' = Some es"
    and d: "df' = bool_index df (map (\<lambda>v. \<not> v \<in> set [excluded_email]) es)"
    by (auto simp: exclude_email_def getitem_def split: option.splits)
  have "map_of (cols df') ''email'' = Some (filter (\<lambda>v. \<not> v \<in> set [excluded_email]) es)"
    by (simp add: d bool_index_lookup es mask_series_map)
  then show ?thesis by auto
qed

lemma stamp_contract_lookup:
  "k \<notin> set cs \<Longrightarrow> stamp_contract row cs df = Inr d \<Longrightarrow> map_of (cols d) k = map_of (cols df) k"
proof (induction cs arbitrary: df)
  case Nil
  then show ?case by simp
next
  case (Cons c cs)
  from Cons.prems(2) obtain v where v: "row_get row c = Inr v"
    and s: "stamp_contract row cs (setitem_scalar df c v) = Inr d"
    by (auto split: sum.splits)
  from Cons.prems(1) have "k \<notin> set cs" "k \<noteq> c" by auto
  with Cons.IH [OF _ s] show ?case
    by (simp add: setitem_scalar_def setitem_lookup)
qed

lemma drop_ignore_lookup:
  "k \<notin> set cs \<Longrightarrow> map_of (cols (drop_ignore df cs)) k = map_of (cols df) k"
proof -
  assume k: "k \<notin> set cs"
  have "map_of (filter (\<lambda>p. fst p \<notin> set cs) xs) k = map_of xs k"
    for xs :: "(string \<times> val list) list"
    using k by (induction xs) auto
  then show ?thesis by (simp add: drop_ignore_def)
qed

lemma contract_managers_column:
  assumes "contract_managers row df = Inr d"
  shows "\<exists>es. map_of (cols d) ''email'' = Some es \<and> excluded_email \<notin> set es"
proof -
  let ?drops = "[''profileId'', ''isBlocked'', ''party'', ''externalUserId'',
                ''externalUserParties'', ''activeState'']"
  from assms obtain df1 where e: "exclude_email df = Inr df1"
    and s: "stamp_contract row contract_columns
              (drop_ignore (pd_rename df1 [(''id'', ''profileId'')]) ?drops) = Inr d"
    by (auto simp: contract_managers_def split: sum.splits)
  have "map_of (cols d) ''email''
      = map_of (cols (drop_ignore (pd_rename df1 [(''id'', ''profileId'')]) ?drops)) ''email''"
    using s by (rule stamp_contract_lookup [rotated]) (simp add: contract_columns_def)
  also have "\<dots> = map_of (cols (pd_rename df1 [(''id'', ''profileId'')])) ''email''"
    by (rule drop_ignore_lookup) simp
  also have "\<dots> = map_of (cols df1) ''email''"
    by (rule pd_rename_lookup) simp_all
  finally show ?thesis
    using exclude_email_column [OF e] by simp
qed

lemma managers_loop_clean:
  "list_all email_clean managers \<Longrightarrow> managers_loop reply idx rows managers = Inr out
     \<Longrightarrow> list_all email_clean out"
proof (induction rows arbitrary: managers idx)
  case Nil
  then show ?case by simp
next
  case (Cons row rows)
  from Cons.prems(2) obtain cid where c: "row_get row ''contractId'' = Inr cid"
    by (auto split: sum.splits)
  show ?case
  proof (cases "reply idx cid")
    case (Managers df)
    show ?thesis
    proof (cases "contract_managers row df")
      case (Inl e)
      with Cons.prems c Managers have "managers_loop reply (Suc idx) rows managers = Inr out" by simp
      with Cons.IH Cons.prems(1) show ?thesis by blast
    next
      case (Inr d)
      with Cons.prems c Managers have l: "managers_loop reply (Suc idx) rows (managers @ [d]) = Inr out"
        by simp
      from Inr have "email_clean d"
        using contract_managers_column by (simp add: email_clean_def)
      with Cons.prems(1) have "list_all email_clean (managers @ [d])" by simp
      with Cons.IH l show ?thesis by blast
    qed
  qed (use Cons c in \<open>auto\<close>)
qed

lemma map_of_tabulate:
  "map_of (map (\<lambda>c. (c, f c)) cs) k = (if k \<in> set cs then Some (f k) else None)"
  by (induction cs) auto

lemma pd_concat_email:
  assumes "list_all email_clean dfs" and "dfs \<noteq> []"
  shows "email_clean (pd_concat dfs)"
proof -
  let ?f = "\<lambda>df. case map_of (cols df) ''email'' of Some vs \<Rightarrow> vs | None \<Rightarrow> replicate (nrows df) NaN"
  from assms obtain d ds where "dfs = d # ds" "email_clean d" by (cases dfs) auto
  then have "''email'' \<in> set (columns d)" by (auto simp: email_clean_def columns_mem)
  with \<open>dfs = d # ds\<close> have "''email'' \<in> set (rev (remdups (rev (concat (map columns dfs)))))"
    by simp
  then have m: "map_of (cols (pd_concat dfs)) ''email'' = Some (concat (map ?f dfs))"
    by (simp add: pd_concat_def map_of_tabulate)
  have "excluded_email \<notin> set (?f df)" if "df \<in> set dfs" for df
    using that assms(1) by (auto simp: list_all_iff email_clean_def)
  then have "excluded_email \<notin> set (concat (map ?f dfs))" by auto
  with m show ?thesis by (simp add: email_clean_def)
qed

lemma get_managers_email:
  assumes g: "get_managers reply contracts_df = Inr out"
    and e: "getitem out ''email'' = Inr os"
  shows "excluded_email \<notin> set os"
proof (cases "df_empty contracts_df")
  case True
  with g e show ?thesis by (auto simp: get_managers_def empty_frame_def getitem_def)
next
  case False
  with g obtain ms where l: "managers_loop reply 0 (rows_of contracts_df) [] = Inr ms"
    by (auto simp: get_managers_def split: sum.splits)
  show ?thesis
  proof (cases "ms = []")
    case True
    with g e l False show ?thesis by (auto simp: get_managers_def empty_frame_def getitem_def)
  next
    case ne: False
    from l have "list_all email_clean ms" by (intro managers_loop_clean [OF _ l]) simp
    with ne have c: "email_clean (pd_concat ms)" by (intro pd_concat_email)
    from g l False ne
    have s: "select_columns (pd_concat ms)
               (filter (\<lambda>c. c \<in> set (columns (pd_concat ms))) expected_columns) = Inr out"
      by (simp add: get_managers_def Let_def)
    from select_available_lookup [of "pd_concat ms" expected_columns] s
    have "map_of (cols out) ''email''
        = (if ''email'' \<in> set expected_columns then map_of (cols (pd_concat ms)) ''email'' else None)"
      by auto
    with c e show ?thesis
      by (auto simp: email_clean_def getitem_Inr split: if_splits)
  qed
qed

text \<open>
  C8. The exclusion step of the manager fetcher keeps the columns of a table that has an
  \<^verbatim>\<open>email\<close> column and exactly the rows whose email is not \<^verbatim>\<open>zev@ckw.ch\<close>, whatever the other
  cells of a row hold. And whatever the contracts and the replies of the API, no row of
  the table that \<^verbatim>\<open>get_managers\<close> returns has that email.
\<close>

theorem excluded_manager_email:
  "(wf_df df \<and> getitem df ''email'' = Inr es \<longrightarrow>
      (\<exists>df'. exclude_email df = Inr df' \<and> columns df' = columns df
         \<and> rows_of df' = filter (\<lambda>r. map_of r ''email'' \<noteq> Some (Str ''zev@ckw.ch'')) (rows_of df)))
   \<and> (get_managers reply contracts_df = Inr out \<and> getitem out ''email'' = Inr os
        \<longrightarrow> Str ''zev@ckw.ch'' \<notin> set os)"
  using exclude_email_rows [of df es] get_managers_email [of reply contracts_df out os]
  by (simp add: excluded_email_def)

theorem excluded_manager_email_witness:
  "wf_df \<lparr>nrows = 3, cols = [(''email'', [Str ''zev@ckw.ch'', Str ''a@b.ch'', PyNone]),
                            (''firstName'', [Str ''Z'', Str ''A'', Str ''N''])]\<rparr>
   \<and> (\<exists>df'. exclude_email \<lparr>nrows = 3, cols = [(''email'', [Str ''zev@ckw.ch'', Str ''a@b.ch'', PyNone]),
                            (''firstName'', [Str ''Z'', Str ''A'', Str ''N''])]\<rparr> = Inr df'
         \<and> rows_of df' = [[(''email'', Str ''a@b.ch''), (''firstName'', Str ''A'')],
                           [(''email'', PyNone), (''firstName'', Str ''N'')]])
   \<and> get_managers
        (\<lambda>i c. Managers \<lparr>nrows = 3, cols = [(''email'', [Str ''zev@ckw.ch'', Str ''a@b.ch'', PyNone]),
                            (''firstName'', [Str ''Z'', Str ''A'', Str ''N''])]\<rparr>)
        \<lparr>nrows = 1, cols = [(''contractId'', [Num 7]), (''contractName'', [Str ''n'']),
                            (''contractActiveState'', [Str ''ACTIVE'']), (''productName'', [PyNone]),
                            (''areaName'', [Str ''Main''])]\<rparr>
       = Inr \<lparr>nrows = 2, cols = [(''contractId'', [Num 7, Num 7]), (''contractName'', [Str ''n'', Str ''n'']),
                            (''contractActiveState'', [Str ''ACTIVE'', Str ''ACTIVE'']),
                            (''productName'', [PyNone, PyNone]), (''areaName'', [Str ''Main'', Str ''Main'']),
                            (''firstName'', [Str ''A'', Str ''N'']), (''email'', [Str ''a@b.ch'', PyNone])]\<rparr>
   \<and> Str ''zev@ckw.ch'' \<notin> set [Str ''a@b.ch'', PyNone]"
proof -
  let ?M = "\<lparr>nrows = 3, cols = [(''email'', [Str ''zev@ckw.ch'', Str ''a@b.ch'', PyNone]),
                            (''firstName'', [Str ''Z'', Str ''A'', Str ''N''])]\<rparr>"
  let ?C = "\<lparr>nrows = 1, cols = [(''contractId'', [Num 7]), (''contractName'', [Str ''n'']),
                            (''contractActiveState'', [Str ''ACTIVE'']), (''productName'', [PyNone]),
                            (''areaName'', [Str ''Main''])]\<rparr>"
  let ?O = "\<lparr>nrows = 2, cols = [(''contractId'', [Num 7, Num 7]), (''contractName'', [Str ''n'', Str ''n'']),
                            (''contractActiveState'', [Str ''ACTIVE'', Str ''ACTIVE'']),
                            (''productName'', [PyNone, PyNone]), (''areaName'', [Str ''Main'', Str ''Main'']),
                            (''firstName'', [Str ''A'', Str ''N'']), (''email'', [Str ''a@b.ch'', PyNone])]\<rparr>"
  have w: "wf_df ?M" by (simp add: wf_df_def columns_def)
  have e: "getitem ?M ''email'' = Inr [Str ''zev@ckw.ch'', Str ''a@b.ch'', PyNone]"
    by (simp add: getitem_def)
  have r: "rows_of ?M = [[(''email'', Str ''zev@ckw.ch''), (''firstName'', Str ''Z'')],
                         [(''email'', Str ''a@b.ch''), (''firstName'', Str ''A'')],
                         [(''email'', PyNone), (''firstName'', Str ''N'')]]"
    by (simp add: rows_of_def row_at_def upt_rec)
  have g: "get_managers (\<lambda>i c. Managers ?M) ?C = Inr ?O"
    by code_simp
  have o: "getitem ?O ''email'' = Inr [Str ''a@b.ch'', PyNone]"
    by (simp add: getitem_def)
  note t = excluded_manager_email [of ?M "[Str ''zev@ckw.ch'', Str ''a@b.ch'', PyNone]"
      "\<lambda>i c. Managers ?M" ?C ?O "[Str ''a@b.ch'', PyNone]"]
  from t w e have "\<exists>df'. exclude_email ?M = Inr df'
         \<and> rows_of df' = [[(''email'', Str ''a@b.ch''), (''firstName'', Str ''A'')],
                           [(''email'', PyNone), (''firstName'', Str ''N'')]]"
    unfolding r by simp blast
  moreover from t g o have "Str ''zev@ckw.ch'' \<notin> set [Str ''a@b.ch'', PyNone]"
    by blast
  ultimately show ?thesis using w g by blast
qed

end
